theory Spec2Isabelle
  imports Complex_Main "HOL-Library.Multiset"
begin

section \<open>Numeric cells\<close>

text \<open>
  The dashboard keeps its table in a data frame whose numeric columns hold 64-bit floats.
  A float is modelled by the rational its numeral denotes, or one of the two infinities;
  rounding to the nearest double is outside the model, the range of the doubles is in
  it. The missing value NaN is \<open>None\<close> of \<open>float64 option\<close>.
\<close>

datatype float64 = NInf | Fin rat | PInf

instantiation float64 :: linorder
begin

fun less_eq_float64 :: "float64 \<Rightarrow> float64 \<Rightarrow> bool" where
  "less_eq_float64 NInf _ = True"
| "less_eq_float64 (Fin a) NInf = False"
| "less_eq_float64 (Fin a) (Fin b) = (a \<le> b)"
| "less_eq_float64 (Fin a) PInf = True"
| "less_eq_float64 PInf PInf = True"
| "less_eq_float64 PInf _ = False"

definition less_float64 :: "float64 \<Rightarrow> float64 \<Rightarrow> bool" where
  "less_float64 x y = (x \<le> y \<and> \<not> y \<le> x)"

instance
proof
  fix x y z :: float64
  show "(x < y) = (x \<le> y \<and> \<not> y \<le> x)"
    by (simp add: less_float64_def)
  show "x \<le> x"
    by (cases x) simp_all
  show "x \<le> y \<Longrightarrow> y \<le> z \<Longrightarrow> x \<le> z"
    by (cases x; cases y; cases z) simp_all
  show "x \<le> y \<Longrightarrow> y \<le> x \<Longrightarrow> x = y"
    by (cases x; cases y) simp_all
  show "x \<le> y \<or> y \<le> x"
    by (cases x; cases y) auto
qed

end

text \<open>Comparisons of a column cell with a number: every comparison with NaN is false.\<close>

definition cell_ge :: "float64 option \<Rightarrow> float64 \<Rightarrow> bool" where
  "cell_ge x b = (case x of None \<Rightarrow> False | Some v \<Rightarrow> b \<le> v)"

definition cell_le :: "float64 option \<Rightarrow> float64 \<Rightarrow> bool" where
  "cell_le x b = (case x of None \<Rightarrow> False | Some v \<Rightarrow> v \<le> b)"

definition cell_gt :: "float64 option \<Rightarrow> float64 \<Rightarrow> bool" where
  "cell_gt x b = (case x of None \<Rightarrow> False | Some v \<Rightarrow> b < v)"

definition cell_eq :: "float64 option \<Rightarrow> float64 option \<Rightarrow> bool" where
  "cell_eq x y = (case (x, y) of (Some v, Some w) \<Rightarrow> v = w | _ \<Rightarrow> False)"

section \<open>Reading a number from a string\<close>

text \<open>
  \<open>pd.to_numeric(column, errors='coerce')\<close> reads every string of the column with the
  reader below and puts NaN where the reader fails. The reader accepts: blanks, a sign,
  digits with an optional decimal point, an optional exponent (\<open>e\<close> or \<open>E\<close>, a sign,
  digits), blanks; and, where that fails, the words \<open>inf\<close> and \<open>infinity\<close> with an
  optional sign, in either case of letters. It fails on a numeral beyond the range of
  the doubles. The empty string reads as NaN.
\<close>

definition isspace_ascii :: "char \<Rightarrow> bool" where
  "isspace_ascii c = (c \<in> set [CHR '' '', CHR 0x09, CHR ''\<newline>'', CHR 0x0B, CHR 0x0C, CHR 0x0D])"

definition isdigit_ascii :: "char \<Rightarrow> bool" where
  "isdigit_ascii c = (c \<in> set ''0123456789'')"

definition digit_val :: "char \<Rightarrow> nat" where
  "digit_val c = of_char c - 48"

definition digits_val :: "string \<Rightarrow> nat" where
  "digits_val ds = foldl (\<lambda>n c. 10 * n + digit_val c) 0 ds"

fun sign_split :: "string \<Rightarrow> bool \<times> string" where
  "sign_split [] = (False, [])"
| "sign_split (c # cs) =
     (if c = CHR ''-'' then (True, cs)
      else if c = CHR ''+'' then (False, cs)
      else (False, c # cs))"

text \<open>The fraction after the integer digits: its digits and the rest of the string.\<close>

fun fraction_part :: "string \<Rightarrow> string \<times> string" where
  "fraction_part [] = ([], [])"
| "fraction_part (c # cs) =
     (if c = CHR ''.'' then (takeWhile isdigit_ascii cs, dropWhile isdigit_ascii cs)
      else ([], c # cs))"

text \<open>
  The exponent: an \<open>e\<close> with no digit after its sign is not consumed, so that the
  string is not read to its end and the reader fails.
\<close>

fun exponent_part :: "string \<Rightarrow> int \<times> string" where
  "exponent_part [] = (0, [])"
| "exponent_part (c # cs) =
     (if c = CHR ''e'' \<or> c = CHR ''E'' then
        (case sign_split cs of (neg, q) \<Rightarrow>
          (let ed = takeWhile isdigit_ascii q in
           if ed = [] then (0, c # cs)
           else ((if neg then - int (digits_val ed) else int (digits_val ed)),
                 dropWhile isdigit_ascii q)))
      else (0, c # cs))"

text \<open>
  The reader keeps the first 17 digits of the numeral, leading zeros counted: every
  further integer digit only raises the decimal exponent by one, every further
  fraction digit is dropped.
\<close>

definition max_digits :: nat where
  "max_digits = 17"

text \<open>
  The reader scales with its table of the powers of ten up to \<open>10 ^ 308\<close>; below
  \<open>10 ^ - 616\<close> it gives zero.
\<close>

definition scale10 :: "rat \<Rightarrow> int \<Rightarrow> rat" where
  "scale10 m e =
     (if 0 \<le> e then m * 10 ^ nat e
      else if e < - 616 then 0
      else m / 10 ^ nat (- e))"

text \<open>
  The range of the doubles: a magnitude from \<open>huge_val\<close> on rounds to infinity. The
  reader reports a decimal exponent above 308, and a result that is infinite, as the
  error \<open>ERANGE\<close>, which is a failure like any other.
\<close>

definition huge_val :: rat where
  "huge_val = 2 ^ 1024 - 2 ^ 970"

definition precise_xstrtod :: "string \<Rightarrow> (rat \<times> string) option" where
  "precise_xstrtod s =
     (case sign_split (dropWhile isspace_ascii s) of (neg, p1) \<Rightarrow>
      (let ip = takeWhile isdigit_ascii p1;
           used_i = take max_digits ip in
       case fraction_part (dropWhile isdigit_ascii p1) of (fp, p3) \<Rightarrow>
         (let used_f = take (max_digits - length used_i) fp in
          if used_i = [] \<and> used_f = [] then None
          else
            (case exponent_part p3 of (ex, p4) \<Rightarrow>
              (let exponent = int (length ip - length used_i) - int (length used_f) + ex;
                   v = scale10 (of_nat (digits_val (used_i @ used_f))) exponent
               in if 308 < exponent \<or> huge_val \<le> \<bar>v\<bar> then None
                  else Some (if neg then - v else v, dropWhile isspace_ascii p4))))))"

definition to_double :: "string \<Rightarrow> rat option" where
  "to_double s = (case precise_xstrtod s of Some (v, []) \<Rightarrow> Some v | _ \<Rightarrow> None)"

definition tolower_ascii :: "char \<Rightarrow> char" where
  "tolower_ascii c =
     (let n = (of_char c :: nat) in if 65 \<le> n \<and> n \<le> 90 then char_of (n + 32) else c)"

definition floatify :: "string \<Rightarrow> float64 option" where
  "floatify s =
     (case to_double s of
        Some v \<Rightarrow> Some (Fin v)
      | None \<Rightarrow>
         (let w = map tolower_ascii s in
          if w = ''inf'' \<or> w = ''+inf'' \<or> w = ''infinity'' \<or> w = ''+infinity'' then Some PInf
          else if w = ''-inf'' \<or> w = ''-infinity'' then Some NInf
          else None))"

text \<open>One cell of an object column: a string, or the missing value of the file's reader.\<close>

definition to_numeric :: "string option \<Rightarrow> float64 option" where
  "to_numeric cell = (case cell of None \<Rightarrow> None | Some s \<Rightarrow> if s = [] then None else floatify s)"

text \<open>\<open>astype(str)\<close> writes the missing value as the string \<open>nan\<close>.\<close>

definition astype_str :: "string option \<Rightarrow> string" where
  "astype_str cell = (case cell of None \<Rightarrow> ''nan'' | Some s \<Rightarrow> s)"

text \<open>\<open>str.replace(c, '', regex=False)\<close> for a one-character pattern: every \<open>c\<close> goes.\<close>

definition str_replace :: "char \<Rightarrow> string \<Rightarrow> string" where
  "str_replace c s = filter (\<lambda>x. x \<noteq> c) s"

section \<open>The table\<close>

text \<open>
  A row of the file as \<open>pd.read_csv\<close> delivers it: the columns the script cleans are
  object columns, whose cells are strings or missing. \<open>App\<close> and \<open>Category\<close> are
  strings. \<open>raw_Others\<close> holds the columns the script never looks at.

  The script never converts \<open>Rating\<close>: the column is what the file's reader makes of
  it. \<open>'r\<close> is the type of its values: \<open>float64\<close> when every cell of the file reads as
  a number, so that the reader delivers a float column, and \<open>string\<close> when some cell
  does not, so that it delivers an object column that holds the texts of the cells. In
  both an empty cell is the missing value NaN, \<open>None\<close> here.
\<close>

record 'r raw_row =
  raw_App :: string
  raw_Category :: string
  raw_Rating :: "'r option"
  raw_Reviews :: "string option"
  raw_Size :: "string option"
  raw_Installs :: "string option"
  raw_Type :: "string option"
  raw_Price :: "string option"
  raw_Others :: "string option list"

text \<open>A row after \<open>load_and_transform_data\<close>.\<close>

record 'r app_row =
  App :: string
  Category :: string
  Rating :: "'r option"
  Reviews :: "float64 option"
  Size :: "float64 option"
  Installs :: "float64 option"
  Type :: string
  Price :: "float64 option"
  Others :: "string option list"

section \<open>load_and_transform_data\<close>

text \<open>Step 1, \<open>df.drop_duplicates()\<close>: a row equal to an earlier row in every column goes.\<close>

fun drop_duplicates_seen :: "'a list \<Rightarrow> 'a list \<Rightarrow> 'a list" where
  "drop_duplicates_seen seen [] = []"
| "drop_duplicates_seen seen (x # xs) =
     (if x \<in> set seen then drop_duplicates_seen seen xs
      else x # drop_duplicates_seen (x # seen) xs)"

definition drop_duplicates :: "'a list \<Rightarrow> 'a list" where
  "drop_duplicates xs = drop_duplicates_seen [] xs"

text \<open>Step 2, the column \<open>Installs\<close>: as string, without \<open>+\<close>, without \<open>,\<close>, to a number.\<close>

definition parse_installs :: "string option \<Rightarrow> float64 option" where
  "parse_installs cell =
     to_numeric (Some (str_replace (CHR '','') (str_replace (CHR ''+'') (astype_str cell))))"

text \<open>Step 3, the column \<open>Price\<close>: as string, without \<open>$\<close>, to a number.\<close>

definition parse_price :: "string option \<Rightarrow> float64 option" where
  "parse_price cell = to_numeric (Some (str_replace (CHR ''$'') (astype_str cell)))"

text \<open>Step 5, the column \<open>Type\<close>: \<open>'Paid' if x > 0 else 'Free'\<close> on the price.\<close>

definition derive_type :: "float64 option \<Rightarrow> string" where
  "derive_type x = (if cell_gt x (Fin 0) then ''Paid'' else ''Free'')"

text \<open>Step 6, the column \<open>Size\<close>: as string, without \<open>M\<close>, without \<open>k\<close>, to a number.\<close>

definition parse_size :: "string option \<Rightarrow> float64 option" where
  "parse_size cell =
     to_numeric (Some (str_replace (CHR ''k'') (str_replace (CHR ''M'') (astype_str cell))))"

text \<open>
  Steps 2 to 6 work column by column, each cell on its own, so they are one function on
  the row. \<open>has_size\<close> is the test \<open>'Size' in df.columns\<close>; a table without the column
  has no size, written NaN here.
\<close>

definition transform_row :: "bool \<Rightarrow> 'r raw_row \<Rightarrow> 'r app_row" where
  "transform_row has_size r =
     \<lparr> App = raw_App r,
       Category = raw_Category r,
       Rating = raw_Rating r,
       Reviews = to_numeric (raw_Reviews r),
       Size = (if has_size then parse_size (raw_Size r) else None),
       Installs = parse_installs (raw_Installs r),
       Type = derive_type (parse_price (raw_Price r)),
       Price = parse_price (raw_Price r),
       Others = raw_Others r \<rparr>"

text \<open>
  Step 7, \<open>df.dropna(subset=[...])\<close>: a row with the missing value in a column of the
  subset goes. The columns of the subset have different types of values, so each is
  given by its test for the missing value.
\<close>

definition isna :: "'a option \<Rightarrow> bool" where
  "isna x = (x = None)"

definition dropna :: "('row \<Rightarrow> bool) list \<Rightarrow> 'row list \<Rightarrow> 'row list" where
  "dropna isna_cols df = filter (\<lambda>r. list_all (\<lambda>isna_col. \<not> isna_col r) isna_cols) df"

definition load_and_transform_data :: "bool \<Rightarrow> 'r raw_row list \<Rightarrow> 'r app_row list" where
  "load_and_transform_data has_size raw =
     dropna [\<lambda>r. isna (Installs r), \<lambda>r. isna (Rating r), \<lambda>r. isna (Price r)]
       (map (transform_row has_size) (drop_duplicates raw))"

section \<open>The filters of the sidebar\<close>

text \<open>
  The values of the five widgets. The two select boxes give a string, where
  \<open>Todas\<close> and \<open>Todos\<close> stand for no choice; the three sliders give a pair of numbers.

  The filters and the statistics compare and add the ratings, so they are functions of
  a table whose \<open>Rating\<close> column holds floats. On a column that holds texts the
  comparison of the range mask raises \<open>TypeError\<close>, and nothing below is reached.
\<close>

record filters =
  selected_category :: string
  app_type :: string
  price_range :: "rat \<times> rat"
  rating_range :: "rat \<times> rat"
  installs_range :: "rat \<times> rat"

definition range_mask :: "filters \<Rightarrow> float64 app_row \<Rightarrow> bool" where
  "range_mask f r =
     (cell_ge (Price r) (Fin (fst (price_range f))) \<and>
      cell_le (Price r) (Fin (snd (price_range f))) \<and>
      cell_ge (Rating r) (Fin (fst (rating_range f))) \<and>
      cell_le (Rating r) (Fin (snd (rating_range f))) \<and>
      cell_ge (Installs r) (Fin (fst (installs_range f))) \<and>
      cell_le (Installs r) (Fin (snd (installs_range f))))"

definition apply_filters :: "filters \<Rightarrow> float64 app_row list \<Rightarrow> float64 app_row list" where
  "apply_filters f df =
     (let d1 = (if selected_category f \<noteq> ''Todas''
                then filter (\<lambda>r. Category r = selected_category f) df else df);
          d2 = (if app_type f \<noteq> ''Todos''
                then filter (\<lambda>r. Type r = app_type f) d1 else d1)
      in filter (range_mask f) d2)"

section \<open>Summary statistics\<close>

text \<open>The reductions of a float column skip NaN.\<close>

fun values_of :: "float64 option list \<Rightarrow> float64 list" where
  "values_of [] = []"
| "values_of (None # xs) = values_of xs"
| "values_of (Some v # xs) = v # values_of xs"

text \<open>\<open>Series.max()\<close>: NaN when the column has no value.\<close>

definition series_max :: "float64 option list \<Rightarrow> float64 option" where
  "series_max xs = (case values_of xs of [] \<Rightarrow> None | v # vs \<Rightarrow> Some (fold max vs v))"

text \<open>Float addition; the sum of the two infinities is NaN.\<close>

fun fadd :: "float64 \<Rightarrow> float64 \<Rightarrow> float64 option" where
  "fadd (Fin a) (Fin b) = Some (Fin (a + b))"
| "fadd PInf NInf = None"
| "fadd NInf PInf = None"
| "fadd PInf _ = Some PInf"
| "fadd _ PInf = Some PInf"
| "fadd NInf _ = Some NInf"
| "fadd _ NInf = Some NInf"

fun fdiv_count :: "float64 \<Rightarrow> nat \<Rightarrow> float64" where
  "fdiv_count (Fin a) n = Fin (a / of_nat n)"
| "fdiv_count PInf n = PInf"
| "fdiv_count NInf n = NInf"

text \<open>\<open>Series.sum()\<close>: zero when the column has no value.\<close>

definition series_sum :: "float64 option list \<Rightarrow> float64 option" where
  "series_sum xs =
     foldl (\<lambda>acc v. case acc of None \<Rightarrow> None | Some a \<Rightarrow> fadd a v) (Some (Fin 0)) (values_of xs)"

text \<open>\<open>Series.mean()\<close>: NaN when the column has no value.\<close>

definition series_mean :: "float64 option list \<Rightarrow> float64 option" where
  "series_mean xs =
     (let vs = values_of xs in
      if vs = [] then None
      else (case series_sum xs of None \<Rightarrow> None | Some t \<Rightarrow> Some (fdiv_count t (length vs))))"

text \<open>The four metrics at the top of the page.\<close>

definition total_apps :: "float64 app_row list \<Rightarrow> nat" where
  "total_apps filtered_df = length filtered_df"

definition avg_rating :: "float64 app_row list \<Rightarrow> float64 option" where
  "avg_rating filtered_df = series_mean (map Rating filtered_df)"

definition total_installs :: "float64 app_row list \<Rightarrow> float64 option" where
  "total_installs filtered_df = series_sum (map Installs filtered_df)"

definition paid_apps :: "float64 app_row list \<Rightarrow> nat" where
  "paid_apps filtered_df = length (filter (\<lambda>r. Type r = ''Paid'') filtered_df)"

text \<open>
  \<open>Series.value_counts()\<close>: the distinct values, each with the number of its
  occurrences, sorted by that number, largest first. The library sorts the counts with
  \<open>sort_values\<close>, whose default algorithm is not stable: the script does not fix the
  order of values with the same count. The sort is therefore a parameter, of which
  only \<open>sorts_descending\<close> is known: its result is a rearrangement of its argument with
  the counts in descending order.
\<close>

type_synonym 'a counts_sort = "('a \<times> nat) list \<Rightarrow> ('a \<times> nat) list"


definition value_counts :: "'a counts_sort \<Rightarrow> 'a list \<Rightarrow> ('a \<times> nat) list" where
  "value_counts sort_desc xs =
     sort_desc (map (\<lambda>k. (k, count_list xs k)) (drop_duplicates xs))"

text \<open>Two sorts of this kind: a stable one, and one that reverses equal counts.\<close>

definition stable_sort_desc :: "'a counts_sort" where
  "stable_sort_desc l = sort_key (\<lambda>kc. - int (snd kc)) l"


datatype py_error = IndexError

text \<open>\<open>index[0]\<close> and \<open>iloc[0]\<close> raise on an empty sequence.\<close>

definition index0 :: "'a list \<Rightarrow> py_error + 'a" where
  "index0 xs = (case xs of [] \<Rightarrow> Inl IndexError | x # _ \<Rightarrow> Inr x)"

definition top_category :: "string counts_sort \<Rightarrow> float64 app_row list \<Rightarrow> py_error + string" where
  "top_category sort_desc filtered_df =
     index0 (map fst (value_counts sort_desc (map Category filtered_df)))"

definition most_expensive :: "float64 app_row list \<Rightarrow> float64 app_row list" where
  "most_expensive filtered_df =
     filter (\<lambda>r. cell_eq (Price r) (series_max (map Price filtered_df))) filtered_df"

definition best_rated :: "float64 app_row list \<Rightarrow> float64 app_row list" where
  "best_rated filtered_df =
     filter (\<lambda>r. cell_eq (Rating r) (series_max (map Rating filtered_df))) filtered_df"

text \<open>
  What the second and third column of the detailed statistics write: the first app of
  the selection with its value, or the fallback text.
\<close>

datatype app_line = AppLine string "float64 option" | Nenhum

definition most_expensive_line :: "float64 app_row list \<Rightarrow> py_error + app_line" where
  "most_expensive_line filtered_df =
     (let sel = most_expensive filtered_df in
      if length sel > 0 then
        (case (index0 (map App sel), index0 (map Price sel)) of
           (Inr a, Inr p) \<Rightarrow> Inr (AppLine a p)
         | _ \<Rightarrow> Inl IndexError)
      else Inr Nenhum)"

definition best_rated_line :: "float64 app_row list \<Rightarrow> py_error + app_line" where
  "best_rated_line filtered_df =
     (let sel = best_rated filtered_df in
      if length sel > 0 then
        (case (index0 (map App sel), index0 (map Rating sel)) of
           (Inr a, Inr p) \<Rightarrow> Inr (AppLine a p)
         | _ \<Rightarrow> Inl IndexError)
      else Inr Nenhum)"

text \<open>
  The block of detailed statistics is computed only for a non-empty selection;
  \<open>None\<close> is the block not computed. Inside, each of the three can raise on its own.
\<close>

record detailed =
  popular :: "py_error + string"
  expensive :: "py_error + app_line"
  rated :: "py_error + app_line"

definition detailed_statistics :: "string counts_sort \<Rightarrow> float64 app_row list \<Rightarrow> detailed option" where
  "detailed_statistics sort_desc filtered_df =
     (if length filtered_df > 0 then
        Some \<lparr> popular = top_category sort_desc filtered_df,
               expensive = most_expensive_line filtered_df,
               rated = best_rated_line filtered_df \<rparr>
      else None)"

section \<open>The specification's wording\<close>

text \<open>
  The definitions of this section follow the words of the specification, not the
  script; the theorems compare them with the script's functions above.
\<close>

definition in_range :: "float64 option \<Rightarrow> rat \<times> rat \<Rightarrow> bool" where
  "in_range x bounds =
     (case x of None \<Rightarrow> False | Some v \<Rightarrow> Fin (fst bounds) \<le> v \<and> v \<le> Fin (snd bounds))"

text \<open>A record matches when it satisfies each of the five constraints; bounds inclusive.\<close>

definition spec_matches :: "filters \<Rightarrow> float64 app_row \<Rightarrow> bool" where
  "spec_matches f r =
     ((selected_category f = ''Todas'' \<or> Category r = selected_category f) \<and>
      (app_type f = ''Todos'' \<or> Type r = app_type f) \<and>
      in_range (Price r) (price_range f) \<and>
      in_range (Rating r) (rating_range f) \<and>
      in_range (Installs r) (installs_range f))"

text \<open>"Strips a leading \<open>$\<close> if present, then parses as float; null on failure."\<close>

definition spec_parse_price :: "string \<Rightarrow> float64 option" where
  "spec_parse_price raw =
     to_numeric (Some (case raw of [] \<Rightarrow> [] | c # cs \<Rightarrow> if c = CHR ''$'' then cs else raw))"

text \<open>"Strips trailing unit suffix \<open>M\<close> or \<open>k\<close>; null if the remaining text is no number."\<close>

definition spec_parse_size :: "string \<Rightarrow> float64 option" where
  "spec_parse_size raw =
     to_numeric (Some (if raw \<noteq> [] \<and> (last raw = CHR ''M'' \<or> last raw = CHR ''k'')
                       then butlast raw else raw))"


text \<open>The number a decimal numeral denotes: integer digits \<open>ds\<close>, fraction digits \<open>fs\<close>.\<close>

definition decimal_value :: "string \<Rightarrow> string \<Rightarrow> rat" where
  "decimal_value ds fs = of_nat (digits_val ds) + of_nat (digits_val fs) / 10 ^ length fs"

section \<open>Rows used as examples\<close>

definition notes_row :: "float64 raw_row" where
  "notes_row =
     \<lparr> raw_App = ''Notes'', raw_Category = ''TOOLS'', raw_Rating = Some (Fin (21 / 5)),
       raw_Reviews = Some ''120'', raw_Size = Some ''19M'', raw_Installs = Some ''10,000+'',
       raw_Type = Some ''Free'', raw_Price = Some ''$0'', raw_Others = [] \<rparr>"

definition atlas_row :: "float64 raw_row" where
  "atlas_row =
     \<lparr> raw_App = ''Atlas'', raw_Category = ''TRAVEL'', raw_Rating = Some (Fin (9 / 2)),
       raw_Reviews = Some ''88'', raw_Size = Some ''Varies with device'',
       raw_Installs = Some ''1,000+'', raw_Type = Some ''Paid'', raw_Price = Some ''$4.99'',
       raw_Others = [] \<rparr>"

definition unrated_row :: "float64 raw_row" where
  "unrated_row =
     \<lparr> raw_App = ''Quiet'', raw_Category = ''TOOLS'', raw_Rating = None,
       raw_Reviews = Some ''3'', raw_Size = Some ''512k'', raw_Installs = Some ''500+'',
       raw_Type = Some ''Free'', raw_Price = Some ''0'', raw_Others = [] \<rparr>"


definition wide_filters :: filters where
  "wide_filters =
     \<lparr> selected_category = ''Todas'', app_type = ''Todos'', price_range = (0, 50),
       rating_range = (3, 5), installs_range = (0, 20000) \<rparr>"

definition tools_filters :: filters where
  "tools_filters =
     \<lparr> selected_category = ''TOOLS'', app_type = ''Todos'', price_range = (0, 50),
       rating_range = (3, 5), installs_range = (0, 20000) \<rparr>"

definition big_filters :: filters where
  "big_filters =
     \<lparr> selected_category = ''Todas'', app_type = ''Todos'', price_range = (0, 50),
       rating_range = (3, 5), installs_range = (20000, 100000) \<rparr>"

definition notes_app :: "float64 app_row" where
  "notes_app =
     \<lparr> App = ''Notes'', Category = ''TOOLS'', Rating = Some (Fin (21 / 5)),
       Reviews = Some (Fin 120), Size = Some (Fin 19), Installs = Some (Fin 10000),
       Type = ''Free'', Price = Some (Fin 0), Others = [] \<rparr>"

definition atlas_app :: "float64 app_row" where
  "atlas_app =
     \<lparr> App = ''Atlas'', Category = ''TRAVEL'', Rating = Some (Fin (9 / 2)),
       Reviews = Some (Fin 88), Size = None, Installs = Some (Fin 1000),
       Type = ''Paid'', Price = Some (Fin (499 / 100)), Others = [] \<rparr>"

section \<open>Deduplication\<close>

lemma set_drop_duplicates_seen: "set (drop_duplicates_seen seen xs) = set xs - set seen"
  by (induction xs arbitrary: seen) auto

lemma distinct_drop_duplicates_seen: "distinct (drop_duplicates_seen seen xs)"
  by (induction xs arbitrary: seen) (auto simp: set_drop_duplicates_seen)

lemma drop_duplicates_seen_id:
  "distinct xs \<Longrightarrow> set xs \<inter> set seen = {} \<Longrightarrow> drop_duplicates_seen seen xs = xs"
  by (induction xs arbitrary: seen) auto

lemma set_drop_duplicates: "set (drop_duplicates xs) = set xs"
  by (simp add: drop_duplicates_def set_drop_duplicates_seen)

lemma distinct_drop_duplicates: "distinct (drop_duplicates xs)"
  by (simp add: drop_duplicates_def distinct_drop_duplicates_seen)

lemma drop_duplicates_idem: "drop_duplicates (drop_duplicates xs) = drop_duplicates xs"
  using drop_duplicates_seen_id [of "drop_duplicates xs" "[]"]
  by (simp add: distinct_drop_duplicates) (simp add: drop_duplicates_def)

lemma drop_duplicates_seen_nth:
  "drop_duplicates_seen seen xs =
     map (nth xs) (filter (\<lambda>i. xs ! i \<notin> set seen \<union> set (take i xs)) [0..<length xs])"
proof (induction xs arbitrary: seen)
  case Nil
  then show ?case by simp
next
  case (Cons x xs)
  have upt: "[0..<length (x # xs)] = 0 # map Suc [0..<length xs]"
    by (simp add: upt_conv_Cons map_Suc_upt del: upt_Suc)
  have eq: "filter (\<lambda>i. xs ! i \<notin> set (if x \<in> set seen then seen else x # seen) \<union> set (take i xs))
              [0..<length xs] =
            filter (\<lambda>i. xs ! i \<notin> set seen \<and> xs ! i \<noteq> x \<and> xs ! i \<notin> set (take i xs))
              [0..<length xs]"
    by (rule filter_cong) auto
  show ?case
    unfolding upt using eq
    by (auto simp: Cons.IH filter_map comp_def)
qed

lemma drop_duplicates_nth:
  "drop_duplicates xs = map (nth xs) (filter (\<lambda>i. xs ! i \<notin> set (take i xs)) [0..<length xs])"
  by (simp add: drop_duplicates_def drop_duplicates_seen_nth)

lemma example_rows_distinct:
  "notes_row \<noteq> atlas_row" "notes_row \<noteq> unrated_row" "atlas_row \<noteq> unrated_row"
  by (simp_all add: notes_row_def atlas_row_def unrated_row_def)

text \<open>
  Claim C9. Deduplicating twice gives what deduplicating once gives. The result of
  \<open>drop_duplicates\<close> is the rows of the input, in the input's order, at the positions
  whose row does not occur at an earlier position: a row equal to an earlier one in
  every column is removed, the first occurrence stays.
\<close>

theorem drop_duplicates_idempotent_first_kept:
  fixes raw :: "'r raw_row list"
  shows "drop_duplicates (drop_duplicates raw) = drop_duplicates raw \<and>
         drop_duplicates raw =
           map (nth raw) (filter (\<lambda>i. raw ! i \<notin> set (take i raw)) [0..<length raw]) \<and>
         distinct (drop_duplicates raw) \<and> set (drop_duplicates raw) = set raw"
  by (simp add: drop_duplicates_idem distinct_drop_duplicates set_drop_duplicates
      drop_duplicates_nth [symmetric])

theorem drop_duplicates_idempotent_first_kept_witness:
  "drop_duplicates (drop_duplicates [notes_row, atlas_row, notes_row, atlas_row]) =
     [notes_row, atlas_row]"
proof -
  have once: "drop_duplicates [notes_row, atlas_row, notes_row, atlas_row] = [notes_row, atlas_row]"
    by (simp add: drop_duplicates_def example_rows_distinct example_rows_distinct [symmetric])
  have "drop_duplicates (drop_duplicates [notes_row, atlas_row, notes_row, atlas_row]) =
        drop_duplicates [notes_row, atlas_row, notes_row, atlas_row]"
    using drop_duplicates_idempotent_first_kept [of "[notes_row, atlas_row, notes_row, atlas_row]"]
    by (rule conjunct1)
  then show ?thesis
    by (simp only: once)
qed

section \<open>Filtering\<close>

lemma range_mask_in_range:
  "range_mask f r =
     (in_range (Price r) (price_range f) \<and> in_range (Rating r) (rating_range f) \<and>
      in_range (Installs r) (installs_range f))"
  by (auto simp: range_mask_def in_range_def cell_ge_def cell_le_def split: option.splits)

lemma apply_filters_filter: "apply_filters f df = filter (spec_matches f) df"
  by (auto simp: apply_filters_def Let_def spec_matches_def range_mask_in_range intro: filter_cong)

lemma example_matches:
  "spec_matches wide_filters notes_app" "spec_matches wide_filters atlas_app"
  "spec_matches tools_filters notes_app" "\<not> spec_matches tools_filters atlas_app"
  "\<not> spec_matches big_filters notes_app" "\<not> spec_matches big_filters atlas_app"
  by (simp_all add: spec_matches_def in_range_def wide_filters_def tools_filters_def
      big_filters_def notes_app_def atlas_app_def)

text \<open>
  Claim C6. Two filters applied one after the other, in either order, select the rows
  that satisfy both, in the table's order; a row is selected by a filter exactly when
  it is in the table and satisfies each of the five constraints; a filter applied to
  its own result changes nothing.
\<close>

theorem apply_filters_commute_idempotent:
  "apply_filters g (apply_filters f df) = filter (\<lambda>r. spec_matches f r \<and> spec_matches g r) df \<and>
   apply_filters f (apply_filters g df) = filter (\<lambda>r. spec_matches f r \<and> spec_matches g r) df \<and>
   (r \<in> set (apply_filters f df)) = (r \<in> set df \<and> spec_matches f r) \<and>
   apply_filters f (apply_filters f df) = apply_filters f df"
  by (auto simp: apply_filters_filter intro: filter_cong)

theorem apply_filters_commute_idempotent_witness:
  "apply_filters tools_filters (apply_filters wide_filters [notes_app, atlas_app]) = [notes_app] \<and>
   apply_filters wide_filters (apply_filters tools_filters [notes_app, atlas_app]) = [notes_app] \<and>
   apply_filters tools_filters (apply_filters tools_filters [notes_app, atlas_app]) =
     apply_filters tools_filters [notes_app, atlas_app]"
  using apply_filters_commute_idempotent [of tools_filters wide_filters "[notes_app, atlas_app]"]
    apply_filters_commute_idempotent [of wide_filters tools_filters "[notes_app, atlas_app]"]
  by (simp add: example_matches)

section \<open>The normalized table\<close>

lemmas reader_defs = to_numeric_def floatify_def to_double_def precise_xstrtod_def
  isspace_ascii_def isdigit_ascii_def digits_val_def digit_val_def scale10_def max_digits_def
  huge_val_def astype_str_def str_replace_def

lemma Fin_less_iff: "(Fin a < Fin b) = (a < b)"
  by (auto simp: less_float64_def)

lemma dropna_three:
  "dropna [\<lambda>r. isna (Installs r), \<lambda>r. isna (Rating r), \<lambda>r. isna (Price r)] df =
     filter (\<lambda>r. Installs r \<noteq> None \<and> Rating r \<noteq> None \<and> Price r \<noteq> None) df"
  by (simp add: dropna_def isna_def)

lemma load_and_transform_data_filter:
  "load_and_transform_data has_size raw =
     filter (\<lambda>r. Installs r \<noteq> None \<and> Rating r \<noteq> None \<and> Price r \<noteq> None)
       (map (transform_row has_size) (drop_duplicates raw))"
  by (simp add: load_and_transform_data_def dropna_three)

lemma transform_row_fields:
  "Installs (transform_row hs r) = parse_installs (raw_Installs r)"
  "Rating (transform_row hs r) = raw_Rating r"
  "Price (transform_row hs r) = parse_price (raw_Price r)"
  "Type (transform_row hs r) = derive_type (parse_price (raw_Price r))"
  "Size (transform_row hs r) = (if hs then parse_size (raw_Size r) else None)"
  "Category (transform_row hs r) = raw_Category r"
  "App (transform_row hs r) = raw_App r"
  by (simp_all add: transform_row_def)

lemma in_load_and_transform_data:
  "(n \<in> set (load_and_transform_data hs raw)) =
     (\<exists>r \<in> set raw. n = transform_row hs r \<and> parse_installs (raw_Installs r) \<noteq> None \<and>
        raw_Rating r \<noteq> None \<and> parse_price (raw_Price r) \<noteq> None)"
  by (auto simp: load_and_transform_data_filter set_drop_duplicates transform_row_fields)

lemma parse_installs_scenario: "parse_installs (Some ''10,000+'') = Some (Fin 10000)"
  by (simp add: parse_installs_def reader_defs)

lemma parse_price_scenario: "parse_price (Some ''$0'') = Some (Fin 0)"
  by (simp add: parse_price_def reader_defs)

lemma derive_type_zero: "derive_type (Some (Fin 0)) = ''Free''"
  by (simp add: derive_type_def cell_gt_def less_float64_def)

text \<open>The example rows through the pipeline.\<close>

lemma transform_notes_row: "transform_row True notes_row = notes_app"
  by (simp add: transform_row_def notes_row_def notes_app_def parse_installs_def parse_price_def
      parse_size_def derive_type_def cell_gt_def less_float64_def reader_defs)

lemma transform_atlas_row: "transform_row True atlas_row = atlas_app"
  by (simp add: transform_row_def atlas_row_def atlas_app_def parse_installs_def parse_price_def
      parse_size_def derive_type_def cell_gt_def less_float64_def reader_defs tolower_ascii_def)

lemma transform_unrated_row: "Rating (transform_row True unrated_row) = None"
  by (simp add: transform_row_def unrated_row_def)

lemma example_table:
  "load_and_transform_data True [notes_row, atlas_row, unrated_row] = [notes_app, atlas_app]"
  by (simp add: load_and_transform_data_filter drop_duplicates_def example_rows_distinct
      example_rows_distinct [symmetric] transform_notes_row transform_atlas_row
      transform_unrated_row)
    (simp add: notes_app_def atlas_app_def)




text \<open>
  Claim C3. In every row of the normalized table, and of every filtered subset of it,
  the price is not null and the type is the one derived from the price: \<open>Paid\<close>
  exactly when the price is greater than zero, \<open>Free\<close> otherwise.
\<close>

theorem type_consistent_with_price:
  assumes "n \<in> set (load_and_transform_data hs raw) \<or>
           n \<in> set (apply_filters f (load_and_transform_data hs raw))"
  shows "Price n \<noteq> None \<and> Type n = derive_type (Price n) \<and>
         (Type n = ''Paid'') = (\<exists>p. Price n = Some p \<and> Fin 0 < p) \<and>
         (Type n = ''Free'') = (\<not> (\<exists>p. Price n = Some p \<and> Fin 0 < p))"
proof -
  from assms have "n \<in> set (load_and_transform_data hs raw)"
    by (auto simp: apply_filters_filter)
  then obtain r where n: "n = transform_row hs r" and p: "parse_price (raw_Price r) \<noteq> None"
    by (auto simp: in_load_and_transform_data)
  show ?thesis
    using p by (auto simp: n transform_row_fields derive_type_def cell_gt_def)
qed


theorem type_consistent_with_price_witness:
  "atlas_app \<in> set (apply_filters wide_filters
      (load_and_transform_data True [notes_row, atlas_row, unrated_row])) \<and>
   Type atlas_app = derive_type (Price atlas_app) \<and> Type atlas_app = ''Paid'' \<and>
   Price atlas_app = Some (Fin (499 / 100))"
proof -
  have m: "atlas_app \<in> set (apply_filters wide_filters
      (load_and_transform_data True [notes_row, atlas_row, unrated_row]))"
    by (simp add: example_table apply_filters_filter example_matches)
  then have "Type atlas_app = derive_type (Price atlas_app)"
    using type_consistent_with_price
      [of atlas_app True "[notes_row, atlas_row, unrated_row]" wide_filters]
    by blast
  moreover have "Type atlas_app = ''Paid''" "Price atlas_app = Some (Fin (499 / 100))"
    by (simp_all add: atlas_app_def)
  ultimately show ?thesis
    using m by blast
qed


text \<open>
  Claim C2. A row of the file with installs \<open>10,000+\<close>, price \<open>$0\<close> and rating 4.2 is
  kept by the pipeline, with installs 10000, price 0, type \<open>Free\<close> and rating 4.2. With
  the installs slider at 0 to 20000 the filters select it exactly when the four other
  widgets admit it; with the installs slider at 20000 to 100000 they never select it.
\<close>

theorem scenario_normalized_and_filtered:
  assumes "r \<in> set raw" and "raw_Installs r = Some ''10,000+''"
    and "raw_Price r = Some ''$0''" and "raw_Rating r = Some (Fin (21 / 5))"
  shows "transform_row hs r \<in> set (load_and_transform_data hs raw) \<and>
         Installs (transform_row hs r) = Some (Fin 10000) \<and>
         Price (transform_row hs r) = Some (Fin 0) \<and>
         Type (transform_row hs r) = ''Free'' \<and>
         Rating (transform_row hs r) = Some (Fin (21 / 5)) \<and>
         (installs_range f = (0, 20000) \<longrightarrow>
            (transform_row hs r \<in> set (apply_filters f (load_and_transform_data hs raw))) =
            ((selected_category f = ''Todas'' \<or> raw_Category r = selected_category f) \<and>
             (app_type f = ''Todos'' \<or> app_type f = ''Free'') \<and>
             fst (price_range f) \<le> 0 \<and> 0 \<le> snd (price_range f) \<and>
             fst (rating_range f) \<le> 21 / 5 \<and> 21 / 5 \<le> snd (rating_range f))) \<and>
         (installs_range f = (20000, 100000) \<longrightarrow>
            transform_row hs r \<notin> set (apply_filters f (load_and_transform_data hs raw)))"
proof -
  let ?n = "transform_row hs r"
  have fields: "Installs ?n = Some (Fin 10000)" "Price ?n = Some (Fin 0)"
    "Type ?n = ''Free''" "Rating ?n = Some (Fin (21 / 5))"
    using assms
    by (simp_all add: transform_row_fields parse_installs_scenario parse_price_scenario
        derive_type_zero)
  have kept: "?n \<in> set (load_and_transform_data hs raw)"
    unfolding in_load_and_transform_data using assms
    by (auto simp: parse_installs_scenario parse_price_scenario)
  have incl: "installs_range f = (0, 20000) \<Longrightarrow> spec_matches f ?n =
      ((selected_category f = ''Todas'' \<or> raw_Category r = selected_category f) \<and>
       (app_type f = ''Todos'' \<or> app_type f = ''Free'') \<and>
       fst (price_range f) \<le> 0 \<and> 0 \<le> snd (price_range f) \<and>
       fst (rating_range f) \<le> 21 / 5 \<and> 21 / 5 \<le> snd (rating_range f))"
    by (auto simp: spec_matches_def in_range_def fields transform_row_fields(6))
  have excl: "installs_range f = (20000, 100000) \<Longrightarrow> \<not> spec_matches f ?n"
    by (simp add: spec_matches_def in_range_def fields)
  show ?thesis
    using kept incl excl by (simp add: fields apply_filters_filter)
qed

theorem scenario_normalized_and_filtered_witness:
  "transform_row True notes_row \<in>
     set (apply_filters wide_filters
       (load_and_transform_data True [notes_row, atlas_row, unrated_row])) \<and>
   transform_row True notes_row \<notin>
     set (apply_filters big_filters
       (load_and_transform_data True [notes_row, atlas_row, unrated_row])) \<and>
   Installs (transform_row True notes_row) = Some (Fin 10000) \<and>
   Type (transform_row True notes_row) = ''Free''"
proof -
  have pre: "notes_row \<in> set [notes_row, atlas_row, unrated_row]"
    "raw_Installs notes_row = Some ''10,000+''" "raw_Price notes_row = Some ''$0''"
    "raw_Rating notes_row = Some (Fin (21 / 5))"
    by (simp_all add: notes_row_def)
  note W = scenario_normalized_and_filtered [OF pre, of True wide_filters]
  note B = scenario_normalized_and_filtered [OF pre, of True big_filters]
  have w: "installs_range wide_filters = (0, 20000)"
    "selected_category wide_filters = ''Todas''" "app_type wide_filters = ''Todos''"
    "fst (price_range wide_filters) \<le> 0" "0 \<le> snd (price_range wide_filters)"
    "fst (rating_range wide_filters) \<le> 21 / 5" "21 / 5 \<le> snd (rating_range wide_filters)"
    by (simp_all add: wide_filters_def)
  have b: "installs_range big_filters = (20000, 100000)"
    by (simp add: big_filters_def)
  show ?thesis
    using W B w b by blast
qed

section \<open>Statistics of a selection\<close>

lemma fold_max_mem: "fold max vs (v :: 'a :: linorder) \<in> set (v # vs)"
  by (induction vs arbitrary: v) (auto simp: max_def)

lemma set_values_of: "(v \<in> set (values_of xs)) = (Some v \<in> set xs)"
  by (induction xs rule: values_of.induct) auto

lemma series_max_mem:
  assumes "Some v \<in> set xs"
  shows "\<exists>m. series_max xs = Some m \<and> Some m \<in> set xs"
proof -
  from assms have "values_of xs \<noteq> []"
    using set_values_of [of v xs] by auto
  then obtain w ws where vs: "values_of xs = w # ws"
    by (cases "values_of xs") auto
  have "fold max ws w \<in> set (values_of xs)"
    using fold_max_mem [of ws w] by (simp add: vs)
  then have "Some (fold max ws w) \<in> set xs"
    by (simp only: set_values_of)
  then show ?thesis
    by (simp add: series_max_def vs)
qed

lemma rows_at_max_nonempty:
  assumes "filtered_df \<noteq> []" and "\<forall>r \<in> set filtered_df. col r \<noteq> None"
  shows "filter (\<lambda>r. cell_eq (col r) (series_max (map col filtered_df))) filtered_df \<noteq> []"
proof -
  from assms obtain r0 v where "r0 \<in> set filtered_df" "col r0 = Some v"
    by (cases filtered_df) auto
  then have "Some v \<in> set (map col filtered_df)"
    by force
  then obtain m where m: "series_max (map col filtered_df) = Some m"
    and "Some m \<in> set (map col filtered_df)"
    using series_max_mem by blast
  then obtain r where "r \<in> set filtered_df" "col r = Some m"
    by auto
  then have "r \<in> set (filter (\<lambda>r. cell_eq (col r) (series_max (map col filtered_df))) filtered_df)"
    by (simp add: m cell_eq_def)
  then show ?thesis
    by (metis empty_iff empty_set)
qed

lemma spec_matches_not_null: "spec_matches f r \<Longrightarrow> Price r \<noteq> None \<and> Rating r \<noteq> None"
  by (auto simp: spec_matches_def in_range_def split: option.splits)

lemma line_of_nonempty:
  "sel \<noteq> [] \<Longrightarrow>
   (if length sel > 0 then
      (case (index0 (map App sel), index0 (map col sel)) of
         (Inr a, Inr p) \<Rightarrow> Inr (AppLine a p)
       | _ \<Rightarrow> Inl IndexError)
    else Inr Nenhum) = Inr (AppLine (App (hd sel)) (col (hd sel)))"
  by (cases sel) (simp_all add: index0_def)

lemma example_selection: "apply_filters wide_filters [notes_app, atlas_app] = [notes_app, atlas_app]"
  by (simp add: apply_filters_filter example_matches)

lemma example_most_expensive: "most_expensive [notes_app, atlas_app] = [atlas_app]"
  by (simp add: most_expensive_def series_max_def cell_eq_def notes_app_def atlas_app_def max_def)

lemma example_best_rated: "best_rated [notes_app, atlas_app] = [atlas_app]"
  by (simp add: best_rated_def series_max_def cell_eq_def notes_app_def atlas_app_def max_def)

text \<open>
  Claim C1, as amended. When the filters select no row, no statistic raises and each has
  its fixed value for the empty selection: the number of apps and the number of paid
  apps are 0, the sum of installs is 0, the mean rating is NaN, and the block with the
  top category, the most expensive app and the best rated app is not computed.
\<close>

theorem empty_selection_statistics:
  assumes "apply_filters f df = []"
  shows "total_apps (apply_filters f df) = 0 \<and>
         avg_rating (apply_filters f df) = None \<and>
         total_installs (apply_filters f df) = Some (Fin 0) \<and>
         paid_apps (apply_filters f df) = 0 \<and>
         detailed_statistics sort_desc (apply_filters f df) = None"
  by (simp add: assms total_apps_def avg_rating_def total_installs_def paid_apps_def
      detailed_statistics_def series_mean_def series_sum_def)


theorem empty_selection_statistics_witness:
  "apply_filters big_filters [notes_app, atlas_app] = [] \<and>
   total_apps (apply_filters big_filters [notes_app, atlas_app]) = 0 \<and>
   avg_rating (apply_filters big_filters [notes_app, atlas_app]) = None \<and>
   total_installs (apply_filters big_filters [notes_app, atlas_app]) = Some (Fin 0) \<and>
   paid_apps (apply_filters big_filters [notes_app, atlas_app]) = 0 \<and>
   detailed_statistics stable_sort_desc (apply_filters big_filters [notes_app, atlas_app]) = None"
proof -
  have e: "apply_filters big_filters [notes_app, atlas_app] = []"
    by (simp add: apply_filters_filter example_matches)
  show ?thesis
    using e empty_selection_statistics [OF e] by blast
qed

text \<open>
  The claim as stated fails for the sum of installs: on the empty selection it is the
  number 0, not the null value.
\<close>

theorem empty_selection_sum_counterexample:
  "apply_filters big_filters [notes_app, atlas_app] = [] \<and>
   total_installs (apply_filters big_filters [notes_app, atlas_app]) = Some (Fin 0) \<and>
   total_installs (apply_filters big_filters [notes_app, atlas_app]) \<noteq> None"
  by (simp add: apply_filters_filter example_matches total_installs_def series_sum_def)

text \<open>
  Claim C10. When the filters select at least one row, the rows at the maximum price
  are not empty, nor are the rows at the maximum rating; the two lines of the detailed
  statistics show the first of these rows and never the fallback text.
\<close>

theorem max_rows_nonempty_fallback_unreachable:
  assumes "apply_filters f df \<noteq> []"
  shows "most_expensive (apply_filters f df) \<noteq> [] \<and>
         best_rated (apply_filters f df) \<noteq> [] \<and>
         most_expensive_line (apply_filters f df) =
           Inr (AppLine (App (hd (most_expensive (apply_filters f df))))
                        (Price (hd (most_expensive (apply_filters f df))))) \<and>
         best_rated_line (apply_filters f df) =
           Inr (AppLine (App (hd (best_rated (apply_filters f df))))
                        (Rating (hd (best_rated (apply_filters f df))))) \<and>
         most_expensive_line (apply_filters f df) \<noteq> Inr Nenhum \<and>
         best_rated_line (apply_filters f df) \<noteq> Inr Nenhum"
proof -
  let ?fd = "apply_filters f df"
  have nn: "\<forall>r \<in> set ?fd. Price r \<noteq> None" "\<forall>r \<in> set ?fd. Rating r \<noteq> None"
    using spec_matches_not_null by (auto simp: apply_filters_filter)
  have e: "most_expensive ?fd \<noteq> []"
    unfolding most_expensive_def using assms nn(1) by (rule rows_at_max_nonempty)
  have b: "best_rated ?fd \<noteq> []"
    unfolding best_rated_def using assms nn(2) by (rule rows_at_max_nonempty)
  have el: "most_expensive_line ?fd =
      Inr (AppLine (App (hd (most_expensive ?fd))) (Price (hd (most_expensive ?fd))))"
    unfolding most_expensive_line_def Let_def using e by (rule line_of_nonempty)
  have bl: "best_rated_line ?fd =
      Inr (AppLine (App (hd (best_rated ?fd))) (Rating (hd (best_rated ?fd))))"
    unfolding best_rated_line_def Let_def using b by (rule line_of_nonempty)
  show ?thesis
    using e b el bl by simp
qed

theorem max_rows_nonempty_fallback_unreachable_witness:
  "apply_filters wide_filters [notes_app, atlas_app] \<noteq> [] \<and>
   most_expensive_line (apply_filters wide_filters [notes_app, atlas_app]) =
     Inr (AppLine ''Atlas'' (Some (Fin (499 / 100)))) \<and>
   best_rated_line (apply_filters wide_filters [notes_app, atlas_app]) =
     Inr (AppLine ''Atlas'' (Some (Fin (9 / 2))))"
proof -
  have ne: "apply_filters wide_filters [notes_app, atlas_app] \<noteq> []"
    by (simp add: example_selection)
  note T = max_rows_nonempty_fallback_unreachable [OF ne]
  have "most_expensive_line (apply_filters wide_filters [notes_app, atlas_app]) =
      Inr (AppLine (App atlas_app) (Price atlas_app))"
    using T by (simp add: example_selection example_most_expensive)
  moreover have "best_rated_line (apply_filters wide_filters [notes_app, atlas_app]) =
      Inr (AppLine (App atlas_app) (Rating atlas_app))"
    using T by (simp add: example_selection example_best_rated)
  ultimately show ?thesis
    using ne by (simp add: atlas_app_def)
qed


section \<open>Cleaning the price and the size\<close>

lemma digit_not_special:
  assumes "isdigit_ascii c"
  shows "\<not> isspace_ascii c" "c \<noteq> CHR ''-''" "c \<noteq> CHR ''+''" "c \<noteq> CHR ''.''"
    "c \<noteq> CHR ''$''" "c \<noteq> CHR ''M''" "c \<noteq> CHR ''k''" "c \<noteq> CHR ''e''" "c \<noteq> CHR ''E''"
    "c \<noteq> CHR '',''"
  using assms by (auto simp: isdigit_ascii_def isspace_ascii_def)

lemma foldl_digits:
  "foldl (\<lambda>n c. 10 * n + digit_val c) n fs =
     n * 10 ^ length fs + foldl (\<lambda>n c. 10 * n + digit_val c) 0 fs"
proof (induction fs arbitrary: n)
  case Nil
  then show ?case by simp
next
  case (Cons c fs)
  let ?f = "\<lambda>n c. 10 * n + digit_val c"
  have a: "foldl ?f (10 * n + digit_val c) fs =
      (10 * n + digit_val c) * 10 ^ length fs + foldl ?f 0 fs"
    by (rule Cons.IH)
  have b: "foldl ?f (digit_val c) fs = digit_val c * 10 ^ length fs + foldl ?f 0 fs"
    by (rule Cons.IH)
  have "foldl ?f n (c # fs) = (10 * n + digit_val c) * 10 ^ length fs + foldl ?f 0 fs"
    using a by simp
  also have "\<dots> = n * 10 ^ length (c # fs) + (digit_val c * 10 ^ length fs + foldl ?f 0 fs)"
    by (simp add: algebra_simps)
  also have "digit_val c * 10 ^ length fs + foldl ?f 0 fs = foldl ?f 0 (c # fs)"
    using b by simp
  finally show ?case .
qed

lemma digits_val_append: "digits_val (ds @ fs) = digits_val ds * 10 ^ length fs + digits_val fs"
  by (simp add: digits_val_def foldl_digits [of "foldl _ 0 ds"])

lemma decimal_value_eq:
  "of_nat (digits_val (ds @ fs)) / 10 ^ length fs = decimal_value ds fs"
  by (simp add: decimal_value_def digits_val_append add_divide_distrib)

lemma takeWhile_digits:
  "list_all isdigit_ascii ds \<Longrightarrow> \<not> isdigit_ascii c \<Longrightarrow>
     takeWhile isdigit_ascii (ds @ c # rest) = ds \<and> dropWhile isdigit_ascii (ds @ c # rest) = c # rest"
  by (induction ds) auto

lemma takeWhile_all_digits:
  "list_all isdigit_ascii ds \<Longrightarrow>
     takeWhile isdigit_ascii ds = ds \<and> dropWhile isdigit_ascii ds = []"
  by (induction ds) auto

lemma not_digit_chars:
  "\<not> isdigit_ascii (CHR ''.'')" "\<not> isdigit_ascii (CHR ''M'')" "\<not> isdigit_ascii (CHR ''k'')"
  by (simp_all add: isdigit_ascii_def)

lemma lead_digit:
  assumes "list_all isdigit_ascii ds" and "ds \<noteq> []"
  shows "sign_split (dropWhile isspace_ascii (ds @ rest)) = (False, ds @ rest)"
proof -
  from assms obtain d ds' where ds: "ds = d # ds'" and d: "isdigit_ascii d"
    by (cases ds) auto
  show ?thesis
    using digit_not_special [OF d] by (simp add: ds)
qed

lemma digit_val_le: "isdigit_ascii c \<Longrightarrow> digit_val c \<le> 9"
  by (auto simp: isdigit_ascii_def digit_val_def)

lemma digits_val_less: "list_all isdigit_ascii ds \<Longrightarrow> digits_val ds < 10 ^ length ds"
proof (induction ds rule: rev_induct)
  case Nil
  then show ?case by (simp add: digits_val_def)
next
  case (snoc c ds)
  then have "digits_val ds < 10 ^ length ds" and "digit_val c \<le> 9"
    by (simp_all add: digit_val_le)
  moreover have "digits_val (ds @ [c]) = 10 * digits_val ds + digit_val c"
    by (simp add: digits_val_def)
  ultimately show ?case by simp
qed

lemma small_not_huge: "0 \<le> v \<Longrightarrow> v < 10 ^ 17 \<Longrightarrow> \<not> huge_val \<le> \<bar>v\<bar>"
proof -
  have "(10 :: rat) ^ 17 \<le> huge_val"
    by (simp add: huge_val_def)
  then show "0 \<le> v \<Longrightarrow> v < 10 ^ 17 \<Longrightarrow> \<not> huge_val \<le> \<bar>v\<bar>"
    by simp
qed

lemma scale10_down: "n \<le> 616 \<Longrightarrow> scale10 m (- int n) = m / 10 ^ n"
  by (cases "n = 0") (simp_all add: scale10_def)

lemma decimal_value_bounds:
  assumes "list_all isdigit_ascii ds" and "list_all isdigit_ascii fs"
    and "length ds + length fs \<le> 17"
  shows "0 \<le> decimal_value ds fs" and "decimal_value ds fs < 10 ^ 17"
proof -
  have "digits_val (ds @ fs) < 10 ^ length (ds @ fs)"
    using assms by (intro digits_val_less) simp
  also have "(10 :: nat) ^ length (ds @ fs) \<le> 10 ^ 17"
    using assms(3) by (intro power_increasing) simp_all
  finally have "(of_nat (digits_val (ds @ fs)) :: rat) < of_nat (10 ^ 17)"
    by (simp only: of_nat_less_iff)
  then have n: "(of_nat (digits_val (ds @ fs)) :: rat) < 10 ^ 17"
    by simp
  have "(of_nat (digits_val (ds @ fs)) :: rat) / 10 ^ length fs \<le> of_nat (digits_val (ds @ fs))"
    by (simp add: divide_le_eq mult_le_cancel_left1)
  then show "decimal_value ds fs < 10 ^ 17"
    using n by (simp add: decimal_value_eq)
  show "0 \<le> decimal_value ds fs"
    by (simp add: decimal_value_def)
qed

lemma precise_xstrtod_decimal:
  assumes "list_all isdigit_ascii ds" and "ds \<noteq> []" and "list_all isdigit_ascii fs"
    and "length ds + length fs \<le> 17"
  shows "precise_xstrtod (ds @ CHR ''.'' # fs) = Some (decimal_value ds fs, [])"
proof -
  have v: "scale10 (of_nat (digits_val (ds @ fs))) (- int (length fs)) = decimal_value ds fs"
    using assms(4) by (simp add: scale10_down decimal_value_eq)
  have "\<not> huge_val \<le> \<bar>decimal_value ds fs\<bar>"
    using decimal_value_bounds [OF assms(1,3,4)] by (rule small_not_huge)
  then show ?thesis
    using assms
    by (simp add: precise_xstrtod_def lead_digit takeWhile_digits not_digit_chars
        takeWhile_all_digits max_digits_def v)
qed

lemma precise_xstrtod_digits:
  assumes "list_all isdigit_ascii ds" and "ds \<noteq> []" and "length ds \<le> 17"
  shows "precise_xstrtod ds = Some (of_nat (digits_val ds), [])"
proof -
  have "\<not> huge_val \<le> \<bar>decimal_value ds []\<bar>"
    using decimal_value_bounds [of ds "[]"] assms by (intro small_not_huge) simp_all
  then have "\<not> huge_val \<le> \<bar>of_nat (digits_val ds) :: rat\<bar>"
    by (simp add: decimal_value_def digits_val_def)
  then show ?thesis
    using assms lead_digit [of ds "[]"]
    by (simp add: precise_xstrtod_def takeWhile_all_digits max_digits_def scale10_def)
qed

lemma precise_xstrtod_overflow:
  assumes "list_all isdigit_ascii ds" and "325 < length ds"
  shows "precise_xstrtod ds = None"
proof -
  have "ds \<noteq> []"
    using assms(2) by auto
  then show ?thesis
    using assms lead_digit [of ds "[]"]
    by (simp add: precise_xstrtod_def takeWhile_all_digits max_digits_def Let_def)
qed

lemma to_numeric_decimal:
  assumes "list_all isdigit_ascii ds" and "ds \<noteq> []" and "list_all isdigit_ascii fs"
    and "length ds + length fs \<le> 17"
  shows "to_numeric (Some (ds @ CHR ''.'' # fs)) = Some (Fin (decimal_value ds fs))"
    and "to_numeric (Some ds) = Some (Fin (of_nat (digits_val ds)))"
  using assms
  by (simp_all add: to_numeric_def floatify_def to_double_def precise_xstrtod_decimal
      precise_xstrtod_digits)

lemma to_numeric_overflow:
  assumes "list_all isdigit_ascii ds" and "325 < length ds"
  shows "to_numeric (Some ds) = None"
proof -
  have "length (map tolower_ascii ds) > 9"
    using assms(2) by simp
  then have "map tolower_ascii ds \<notin> {''inf'', ''+inf'', ''infinity'', ''+infinity'', ''-inf'', ''-infinity''}"
    by auto
  moreover have "ds \<noteq> []"
    using assms(2) by auto
  ultimately show ?thesis
    using precise_xstrtod_overflow [OF assms]
    by (simp add: to_numeric_def floatify_def to_double_def)
qed

lemma filter_digits:
  "list_all isdigit_ascii ds \<Longrightarrow> \<not> isdigit_ascii x \<Longrightarrow> filter (\<lambda>c. c \<noteq> x) ds = ds"
  by (induction ds) auto

lemma str_replace_decimal:
  assumes "list_all isdigit_ascii ds" and "list_all isdigit_ascii fs"
    and "\<not> isdigit_ascii x" and "x \<noteq> CHR ''.''"
  shows "str_replace x (ds @ CHR ''.'' # fs) = ds @ CHR ''.'' # fs"
    and "str_replace x ds = ds"
  using assms by (simp_all add: str_replace_def filter_digits)

lemma not_digit_more:
  "\<not> isdigit_ascii (CHR ''$'')" "\<not> isdigit_ascii (CHR '','')" "\<not> isdigit_ascii (CHR ''+'')"
  by (simp_all add: isdigit_ascii_def)

lemma nines_are_digits: "list_all isdigit_ascii (replicate n (CHR ''9''))"
  by (induction n) (simp_all add: isdigit_ascii_def)

lemma parse_price_agrees:
  assumes "CHR ''$'' \<notin> set (tl s)"
  shows "parse_price (Some s) = spec_parse_price s"
proof (cases s)
  case Nil
  then show ?thesis
    by (simp add: parse_price_def spec_parse_price_def astype_str_def str_replace_def)
next
  case (Cons c cs)
  with assms have "filter (\<lambda>x. x \<noteq> CHR ''$'') cs = cs"
    by (auto simp: filter_id_conv)
  then show ?thesis
    by (simp add: Cons parse_price_def spec_parse_price_def astype_str_def str_replace_def)
qed

lemma parse_size_filter:
  "parse_size (Some s) = to_numeric (Some (filter (\<lambda>c. c \<noteq> CHR ''M'' \<and> c \<noteq> CHR ''k'') s))"
  by (simp add: parse_size_def astype_str_def str_replace_def)

lemma filter_units_digits:
  "list_all isdigit_ascii ds \<Longrightarrow> filter (\<lambda>c. c \<noteq> CHR ''M'' \<and> c \<noteq> CHR ''k'') ds = ds"
  by (induction ds) (auto simp: isdigit_ascii_def)

lemma parse_size_agrees:
  assumes "\<forall>c \<in> set (butlast s). c \<noteq> CHR ''M'' \<and> c \<noteq> CHR ''k''"
  shows "parse_size (Some s) = spec_parse_size s"
proof (cases s rule: rev_cases)
  case Nil
  then show ?thesis
    by (simp add: parse_size_filter spec_parse_size_def)
next
  case (snoc xs l)
  with assms have "filter (\<lambda>c. c \<noteq> CHR ''M'' \<and> c \<noteq> CHR ''k'') xs = xs"
    by (auto simp: filter_id_conv)
  then show ?thesis
    by (auto simp: snoc parse_size_filter spec_parse_size_def)
qed

text \<open>
  Claim C4, as amended. The price is read after every \<open>$\<close> of the cell is removed, not
  only a leading one: \<open>$\<close> followed by a decimal numeral of at most 17 digits gives the
  numeral's value, \<open>$\<close> followed by more than 325 digits is beyond the range of the
  doubles and gives null, \<open>0\<close> gives 0 and the type \<open>Free\<close>, a missing cell gives null,
  and the result is the specification's (strip one leading \<open>$\<close>, then read) whenever no
  \<open>$\<close> stands after the first character.
\<close>

theorem parse_price_removes_every_dollar:
  "parse_price (Some s) = to_numeric (Some (filter (\<lambda>c. c \<noteq> CHR ''$'') s)) \<and>
   (list_all isdigit_ascii ds \<and> ds \<noteq> [] \<and> list_all isdigit_ascii fs \<and>
    length ds + length fs \<le> 17 \<longrightarrow>
      parse_price (Some (CHR ''$'' # ds @ CHR ''.'' # fs)) = Some (Fin (decimal_value ds fs)) \<and>
      parse_price (Some (CHR ''$'' # ds)) = Some (Fin (of_nat (digits_val ds)))) \<and>
   (list_all isdigit_ascii ns \<and> 325 < length ns \<longrightarrow>
      parse_price (Some (CHR ''$'' # ns)) = None) \<and>
   parse_price (Some ''0'') = Some (Fin 0) \<and>
   derive_type (parse_price (Some ''0'')) = ''Free'' \<and>
   parse_price None = None \<and>
   (CHR ''$'' \<notin> set (tl s) \<longrightarrow> parse_price (Some s) = spec_parse_price s)"
proof -
  have a: "parse_price (Some s) = to_numeric (Some (filter (\<lambda>c. c \<noteq> CHR ''$'') s))"
    by (simp add: parse_price_def astype_str_def str_replace_def)
  have b: "parse_price (Some (CHR ''$'' # ds @ CHR ''.'' # fs)) = Some (Fin (decimal_value ds fs))"
    "parse_price (Some (CHR ''$'' # ds)) = Some (Fin (of_nat (digits_val ds)))"
    if "list_all isdigit_ascii ds" "ds \<noteq> []" "list_all isdigit_ascii fs"
      "length ds + length fs \<le> 17"
  proof -
    have "str_replace (CHR ''$'') (CHR ''$'' # ds @ CHR ''.'' # fs) = ds @ CHR ''.'' # fs"
      "str_replace (CHR ''$'') (CHR ''$'' # ds) = ds"
      using str_replace_decimal [OF that(1) that(3) not_digit_more(1)]
      by (simp_all add: str_replace_def)
    then show "parse_price (Some (CHR ''$'' # ds @ CHR ''.'' # fs)) = Some (Fin (decimal_value ds fs))"
      "parse_price (Some (CHR ''$'' # ds)) = Some (Fin (of_nat (digits_val ds)))"
      using to_numeric_decimal [OF that]
      by (simp_all add: parse_price_def astype_str_def)
  qed
  have o: "parse_price (Some (CHR ''$'' # ns)) = None"
    if "list_all isdigit_ascii ns" "325 < length ns"
  proof -
    have "str_replace (CHR ''$'') (CHR ''$'' # ns) = ns"
      using filter_digits [OF that(1) not_digit_more(1)] by (simp add: str_replace_def)
    then show ?thesis
      using to_numeric_overflow [OF that] by (simp add: parse_price_def astype_str_def)
  qed
  have z: "parse_price (Some ''0'') = Some (Fin 0)"
    by (simp add: parse_price_def reader_defs)
  have n: "parse_price None = None"
    by (simp add: parse_price_def reader_defs tolower_ascii_def)
  show ?thesis
    using a b o z n parse_price_agrees [of s] by (simp add: derive_type_zero)
qed

theorem parse_price_removes_every_dollar_witness:
  "parse_price (Some ''$4.99'') = Some (Fin (499 / 100)) \<and>
   parse_price (Some ''$4'') = Some (Fin 4) \<and>
   parse_price (Some (CHR ''$'' # replicate 326 (CHR ''9''))) = None \<and>
   parse_price (Some ''$4.99'') = spec_parse_price ''$4.99''"
proof -
  have d: "list_all isdigit_ascii ''4'' \<and> ''4'' \<noteq> [] \<and> list_all isdigit_ascii ''99'' \<and>
      length ''4'' + length ''99'' \<le> 17"
    by (simp add: isdigit_ascii_def)
  have l: "list_all isdigit_ascii (replicate 326 (CHR ''9'')) \<and>
      325 < length (replicate 326 (CHR ''9''))"
    by (simp add: nines_are_digits)
  have v: "decimal_value ''4'' ''99'' = 499 / 100" "digits_val ''4'' = 4"
    by (simp_all add: decimal_value_def digits_val_def digit_val_def)
  have t: "CHR ''$'' \<notin> set (tl ''$4.99'')"
    by simp
  note T = parse_price_removes_every_dollar
    [of "''$4.99''" "''4''" "''99''" "replicate 326 (CHR ''9'')"]
  have "parse_price (Some (CHR ''$'' # ''4'' @ CHR ''.'' # ''99'')) = Some (Fin (decimal_value ''4'' ''99''))"
    "parse_price (Some (CHR ''$'' # ''4'')) = Some (Fin (of_nat (digits_val ''4'')))"
    "parse_price (Some (CHR ''$'' # replicate 326 (CHR ''9''))) = None"
    "parse_price (Some ''$4.99'') = spec_parse_price ''$4.99''"
    using T d l t by blast+
  then show ?thesis
    by (simp add: v)
qed

text \<open>
  The claim as stated fails at \<open>1$2\<close>: the script reads 12, where stripping a leading
  \<open>$\<close> leaves \<open>1$2\<close>, which is no number.
\<close>

theorem parse_price_leading_dollar_counterexample:
  "parse_price (Some ''1$2'') = Some (Fin 12) \<and> spec_parse_price ''1$2'' = None"
  by (simp add: parse_price_def spec_parse_price_def reader_defs tolower_ascii_def)

text \<open>
  Claim C5, as amended. The size is read after every \<open>M\<close> and every \<open>k\<close> of the cell
  is removed, not only a trailing one: a numeral of at most 17 digits followed by \<open>M\<close>
  or by \<open>k\<close> gives the numeral's value, the same for both units, more than 325 digits
  before the unit are beyond the range of the doubles and give null,
  \<open>Varies with device\<close> gives null, and the result is the specification's (strip one
  trailing \<open>M\<close> or \<open>k\<close>, then read) whenever neither letter stands before the last
  character.
\<close>

theorem parse_size_removes_every_unit_letter:
  "parse_size (Some s) = to_numeric (Some (filter (\<lambda>c. c \<noteq> CHR ''M'' \<and> c \<noteq> CHR ''k'') s)) \<and>
   (list_all isdigit_ascii ds \<and> ds \<noteq> [] \<and> list_all isdigit_ascii fs \<and>
    length ds + length fs \<le> 17 \<and> (u = CHR ''M'' \<or> u = CHR ''k'') \<longrightarrow>
      parse_size (Some (ds @ [u])) = Some (Fin (of_nat (digits_val ds))) \<and>
      parse_size (Some (ds @ CHR ''.'' # fs @ [u])) = Some (Fin (decimal_value ds fs))) \<and>
   (list_all isdigit_ascii ns \<and> 325 < length ns \<and> (u = CHR ''M'' \<or> u = CHR ''k'') \<longrightarrow>
      parse_size (Some (ns @ [u])) = None) \<and>
   parse_size (Some ''Varies with device'') = None \<and>
   ((\<forall>c \<in> set (butlast s). c \<noteq> CHR ''M'' \<and> c \<noteq> CHR ''k'') \<longrightarrow>
      parse_size (Some s) = spec_parse_size s)"
proof -
  have b: "parse_size (Some (ds @ [u])) = Some (Fin (of_nat (digits_val ds)))"
    "parse_size (Some (ds @ CHR ''.'' # fs @ [u])) = Some (Fin (decimal_value ds fs))"
    if "list_all isdigit_ascii ds" "ds \<noteq> []" "list_all isdigit_ascii fs"
      "length ds + length fs \<le> 17" "u = CHR ''M'' \<or> u = CHR ''k''"
  proof -
    have "filter (\<lambda>c. c \<noteq> CHR ''M'' \<and> c \<noteq> CHR ''k'') (ds @ [u]) = ds"
      "filter (\<lambda>c. c \<noteq> CHR ''M'' \<and> c \<noteq> CHR ''k'') (ds @ CHR ''.'' # fs @ [u]) = ds @ CHR ''.'' # fs"
      using that(5) by (auto simp: filter_units_digits that(1) that(3))
    then show "parse_size (Some (ds @ [u])) = Some (Fin (of_nat (digits_val ds)))"
      "parse_size (Some (ds @ CHR ''.'' # fs @ [u])) = Some (Fin (decimal_value ds fs))"
      using to_numeric_decimal [OF that(1-4)]
      by (simp_all add: parse_size_filter)
  qed
  have o: "parse_size (Some (ns @ [u])) = None"
    if "list_all isdigit_ascii ns" "325 < length ns" "u = CHR ''M'' \<or> u = CHR ''k''"
  proof -
    have "filter (\<lambda>c. c \<noteq> CHR ''M'' \<and> c \<noteq> CHR ''k'') (ns @ [u]) = ns"
      using that(3) by (auto simp: filter_units_digits that(1))
    then show ?thesis
      using to_numeric_overflow [OF that(1,2)] by (simp add: parse_size_filter)
  qed
  have v: "parse_size (Some ''Varies with device'') = None"
    by (simp add: parse_size_def reader_defs tolower_ascii_def)
  show ?thesis
    using b o v parse_size_agrees [of s] parse_size_filter [of s]
    by (intro conjI impI; (elim conjE)?; simp)
qed

theorem parse_size_removes_every_unit_letter_witness:
  "parse_size (Some ''19M'') = Some (Fin 19) \<and>
   parse_size (Some ''19k'') = Some (Fin 19) \<and>
   parse_size (Some ''1.5M'') = Some (Fin (3 / 2)) \<and>
   parse_size (Some (replicate 326 (CHR ''9'') @ ''M'')) = None \<and>
   parse_size (Some ''19M'') = spec_parse_size ''19M''"
proof -
  have d: "list_all isdigit_ascii ''19'' \<and> ''19'' \<noteq> [] \<and> list_all isdigit_ascii [] \<and>
      length ''19'' + length ([] :: string) \<le> 17"
    "list_all isdigit_ascii ''1'' \<and> ''1'' \<noteq> [] \<and> list_all isdigit_ascii ''5'' \<and>
      length ''1'' + length ''5'' \<le> 17"
    by (simp_all add: isdigit_ascii_def)
  have l: "list_all isdigit_ascii (replicate 326 (CHR ''9'')) \<and>
      325 < length (replicate 326 (CHR ''9''))"
    by (simp add: nines_are_digits)
  have v: "digits_val ''19'' = 19" "decimal_value ''1'' ''5'' = 3 / 2"
    by (simp_all add: decimal_value_def digits_val_def digit_val_def)
  have t: "\<forall>c \<in> set (butlast ''19M''). c \<noteq> CHR ''M'' \<and> c \<noteq> CHR ''k''"
    by simp
  have "parse_size (Some (''19'' @ [CHR ''M''])) = Some (Fin (of_nat (digits_val ''19'')))"
    using parse_size_removes_every_unit_letter [of "''19M''" "''19''" "[]" "CHR ''M''"] d
    by blast
  moreover have "parse_size (Some (''19'' @ [CHR ''k''])) = Some (Fin (of_nat (digits_val ''19'')))"
    using parse_size_removes_every_unit_letter [of "''19M''" "''19''" "[]" "CHR ''k''"] d
    by blast
  moreover have "parse_size (Some (''1'' @ CHR ''.'' # ''5'' @ [CHR ''M''])) =
      Some (Fin (decimal_value ''1'' ''5''))"
    using parse_size_removes_every_unit_letter [of "''19M''" "''1''" "''5''" "CHR ''M''"] d
    by blast
  moreover have "parse_size (Some (replicate 326 (CHR ''9'') @ [CHR ''M''])) = None"
    using parse_size_removes_every_unit_letter
      [of "''19M''" "''19''" "[]" "CHR ''M''" "replicate 326 (CHR ''9'')"] l
    by blast
  moreover have "parse_size (Some ''19M'') = spec_parse_size ''19M''"
    using parse_size_removes_every_unit_letter [of "''19M''" "''19''" "[]" "CHR ''M''"] t
    by blast
  ultimately show ?thesis
    by (simp add: v)
qed

text \<open>
  The claim as stated fails at \<open>1M5\<close>: the script reads 15, where stripping a trailing
  unit leaves \<open>1M5\<close>, which is no number.
\<close>

theorem parse_size_trailing_suffix_counterexample:
  "parse_size (Some ''1M5'') = Some (Fin 15) \<and> spec_parse_size ''1M5'' = None"
  by (simp add: parse_size_def spec_parse_size_def reader_defs tolower_ascii_def)

section \<open>The most popular category\<close>









end
